theory Spec2Isabelle
  imports Main
begin

section \<open>Values, errors and the delimited-text library\<close>

text \<open>
  The wrapper class \<open>tsv\<close> of \<open>src/__init__.py\<close> sits on Python's \<open>csv\<close> module.
  Field splitting and joining belong to that module, so they enter the model as the
  dialect: what \<open>csv.reader\<close> yields for a text and what \<open>csv.writer.writerow\<close> emits
  for a row. Everything the wrapper itself does is translated function by function.
\<close>

text \<open>A field value: \<open>None\<close>, a string, or the list of surplus fields of a long record.\<close>

datatype cell = CNone | CStr string | CList "string list"

text \<open>
  A dictionary key or a column name: a string as a rule, \<open>None\<close> for the \<open>restkey\<close> of
  \<open>DictReader\<close>.
\<close>

type_synonym key = cell

text \<open>A row as the caller sees it. A dict is an association list in insertion order.\<close>

datatype pyval = PNone | PStr string | PList "cell list" | PDict "(key \<times> cell) list"

datatype message =
    Provide_one_only
  | Provided_nothing
  | Absolutely_empty_file
  | Inappropriate_headers_format
  | First_line_has_no_data

text \<open>
  The exceptions the code can raise. \<open>Error\<close> is the wrapper's own exception class;
  \<open>SystemExit\<close> carries the three values \<open>sys.exit\<close> formats into its message: the
  session's file name, the reader's line number and the parser's message.
\<close>

datatype error =
    Error message
  | TypeError
  | FileNotFoundError
  | FileExistsError
  | ValueError
  | IndexError
  | KeyError
  | AttributeError
  | StopIteration
  | RuntimeError
  | CsvError string
  | SystemExit "string option" nat string
  | CallbackError string

text \<open>
  One record of the source as \<open>csv.reader\<close> delivers it: the number of physical lines
  and of characters it takes from the stream, with its fields, or with the message of the
  structural error (\<open>csv.Error\<close>) the parser raises there.
\<close>

datatype csv_event = Row nat nat "string list" | Bad nat nat string

record dialect =
  parse :: "string \<Rightarrow> csv_event list"
  format_row :: "cell list \<Rightarrow> error + string"

text \<open>An \<open>io.StringIO\<close> or an open file: the characters and the position.\<close>

record strio =
  buf :: string
  pos :: nat

text \<open>
  Writing at the position overwrites what is there; nothing happens for the empty
  string, and a position past the end is first reached with NUL characters.
\<close>

definition strio_write :: "strio \<Rightarrow> string \<Rightarrow> strio" where
  "strio_write st s =
     (if s = [] then st
      else \<lparr>buf = take (pos st) (buf st @ replicate (pos st - length (buf st)) (CHR 0x00))
                   @ s @ drop (pos st + length s) (buf st),
            pos = pos st + length s\<rparr>)"

definition strio_rest :: "strio \<Rightarrow> string" where
  "strio_rest st = drop (pos st) (buf st)"

text \<open>The file system: the files that exist, with their contents.\<close>

type_synonym world = "string \<rightharpoonup> string"

section \<open>The session\<close>

datatype text_arg = TStr string | TStream strio | TOther bool

type_synonym headers = "key list option"

record session =
  filename :: "string option"
  file_is_exists :: bool
  text_io :: "strio option"
  dialect :: dialect
  headers :: headers
  headers_is_first_line :: bool
  headers_process_by :: "(headers \<Rightarrow> error + headers) option"

text \<open>Python truth values of the constructor's arguments.\<close>

fun truthy_filename :: "string option \<Rightarrow> bool" where
  "truthy_filename None = False"
| "truthy_filename (Some p) = (p \<noteq> [])"

fun truthy_text :: "text_arg option \<Rightarrow> bool" where
  "truthy_text None = False"
| "truthy_text (Some (TStr s)) = (s \<noteq> [])"
| "truthy_text (Some (TStream st)) = True"
| "truthy_text (Some (TOther b)) = b"

text \<open>\<open>has_headers\<close>: \<open>bool(self.headers)\<close>.\<close>

fun has_headers :: "headers \<Rightarrow> bool" where
  "has_headers None = False"
| "has_headers (Some hs) = (hs \<noteq> [])"

text \<open>
  The scoped stream of \<open>open\<close>, a generator-based context manager with two \<open>if\<close>s in
  a row. With only a text it yields the buffer; with only a file name it opens the file
  (mode \<open>w\<close> truncates, reading a missing file fails) and stores the written characters
  on exit. With both set, the body runs on the buffer and, when it ends normally, the
  generator goes on to the second \<open>if\<close>, opens the file and yields again, which the
  context manager reports as a \<open>RuntimeError\<close>. With neither it never yields, a
  \<open>RuntimeError\<close> too.
  The body returns the exception it ends with, if any, what it produced, the stream and
  the session (whose headers it may set); \<open>dflt\<close> is what was produced when the body
  never ran.
\<close>

definition with_open ::
  "bool \<Rightarrow> world \<Rightarrow> session \<Rightarrow> 'a \<Rightarrow> (strio \<Rightarrow> error option \<times> 'a \<times> strio \<times> session)
     \<Rightarrow> error option \<times> 'a \<times> world \<times> session" where
  "with_open writing w s dflt body =
     (case text_io s of
        Some t \<Rightarrow>
          (case body t of (r, v, t', s') \<Rightarrow>
             (let s'' = s'\<lparr>text_io := Some t'\<rparr> in
              case r of
                Some e \<Rightarrow> (Some e, v, w, s'')
              | None \<Rightarrow>
                  (case filename s of
                     None \<Rightarrow> (None, v, w, s'')
                   | Some p \<Rightarrow>
                       if writing then (Some RuntimeError, v, w(p \<mapsto> []), s'')
                       else if w p = None then (Some FileNotFoundError, v, w, s'')
                       else (Some RuntimeError, v, w, s''))))
      | None \<Rightarrow>
          (case filename s of
             None \<Rightarrow> (Some RuntimeError, dflt, w, s)
           | Some p \<Rightarrow>
               if writing then
                 (case body \<lparr>buf = [], pos = 0\<rparr> of
                    (r, v, f', s') \<Rightarrow> (r, v, w(p \<mapsto> buf f'), s'))
               else
                 (case w p of
                    None \<Rightarrow> (Some FileNotFoundError, dflt, w, s)
                  | Some c \<Rightarrow>
                      (case body \<lparr>buf = c, pos = 0\<rparr> of (r, v, f', s') \<Rightarrow> (r, v, w, s')))))"

text \<open>
  \<open>_detect_dialect\<close>: rewind, sniff the first 1024 characters, rewind. The sniffer is
  the library's; it returns a dialect or fails, and then the stream stays where the
  read left it.
\<close>

definition DETECT_READ_BYTES_NUM :: nat where
  "DETECT_READ_BYTES_NUM = 1024"

definition detect_dialect ::
  "(string \<Rightarrow> error + dialect) \<Rightarrow> world \<Rightarrow> session
     \<Rightarrow> error option \<times> dialect \<times> world \<times> session" where
  "detect_dialect sniff w s =
     with_open False w s (dialect s)
       (\<lambda>f. case sniff (take DETECT_READ_BYTES_NUM (buf f)) of
               Inl e \<Rightarrow>
                 (Some e, dialect s, f\<lparr>pos := min DETECT_READ_BYTES_NUM (length (buf f))\<rparr>, s)
             | Inr d \<Rightarrow> (None, d, f\<lparr>pos := 0\<rparr>, s))"

text \<open>
  \<open>__init__\<close>. The dialect argument is \<open>None\<close> when it is falsy, which asks for
  detection. The fields are assigned in the source's order; the dialect is a placeholder
  until it is known.
\<close>

definition init ::
  "(string \<Rightarrow> error + dialect) \<Rightarrow> world \<Rightarrow> dialect option \<Rightarrow> string option \<Rightarrow> text_arg option
     \<Rightarrow> headers \<Rightarrow> bool \<Rightarrow> (headers \<Rightarrow> error + headers) option \<Rightarrow> error + session" where
  "init sniff w dialect_arg filename_arg text_arg headers_arg hfl hpb =
     (if truthy_filename filename_arg \<and> truthy_text text_arg then Inl (Error Provide_one_only)
      else if filename_arg = None \<and> text_arg = None then Inl (Error Provided_nothing)
      else
        let exists = (case filename_arg of None \<Rightarrow> False | Some p \<Rightarrow> w p \<noteq> None);
            finish = (\<lambda>tx ex.
              let s0 = \<lparr>filename = filename_arg, file_is_exists = ex, text_io = tx,
                        dialect = \<lparr>parse = (\<lambda>_. []), format_row = (\<lambda>_. Inr [])\<rparr>,
                        headers = None, headers_is_first_line = True,
                        headers_process_by = None\<rparr>
              in case dialect_arg of
                   Some d \<Rightarrow>
                     Inr (s0\<lparr>dialect := d, headers := headers_arg,
                            headers_is_first_line := hfl, headers_process_by := hpb\<rparr>)
                 | None \<Rightarrow>
                     (case detect_dialect sniff w s0 of
                        (Some e, _, _, _) \<Rightarrow> Inl e
                      | (None, d, _, s1) \<Rightarrow>
                          Inr (s1\<lparr>dialect := d, headers := headers_arg,
                                 headers_is_first_line := hfl, headers_process_by := hpb\<rparr>)))
        in case text_arg of
             None \<Rightarrow> finish None exists
           | Some (TStr str) \<Rightarrow> finish (Some \<lparr>buf = str, pos = 0\<rparr>) True
           | Some (TStream st) \<Rightarrow> finish (Some st) True
           | Some (TOther _) \<Rightarrow> Inl TypeError)"

section \<open>Readers\<close>

text \<open>
  The state of a \<open>csv.reader\<close>: the records still to come, its \<open>line_num\<close> and the
  characters taken from the stream so far.
\<close>

record rd =
  pending :: "csv_event list"
  line_num :: nat
  consumed :: nat

fun rd_next :: "rd \<Rightarrow> (error + string list) \<times> rd" where
  "rd_next r =
     (case pending r of
        [] \<Rightarrow> (Inl StopIteration, r)
      | Row n k fs # es \<Rightarrow>
          (Inr fs, \<lparr>pending = es, line_num = line_num r + n, consumed = consumed r + k\<rparr>)
      | Bad n k m # es \<Rightarrow>
          (Inl (CsvError m),
           \<lparr>pending = es, line_num = line_num r + n, consumed = consumed r + k\<rparr>))"

text \<open>
  A \<open>csv.reader\<close>, or a \<open>csv.DictReader\<close> with its \<open>_fieldnames\<close>, its own
  \<open>line_num\<close> and the reader it wraps.
\<close>

datatype reader = ListReader rd | DictReader headers nat rd

fun rd_of :: "reader \<Rightarrow> rd" where
  "rd_of (ListReader r) = r"
| "rd_of (DictReader fn ln r) = r"

fun reader_line_num :: "reader \<Rightarrow> nat" where
  "reader_line_num (ListReader r) = line_num r"
| "reader_line_num (DictReader fn ln r) = ln"

text \<open>
  The property \<open>DictReader.fieldnames\<close>: when no names are known it takes the next
  record as the names (an exhausted stream leaves them unset), and it always copies the
  line number of the wrapped reader.
\<close>

fun dict_fieldnames :: "headers \<Rightarrow> nat \<Rightarrow> rd \<Rightarrow> (error + headers) \<times> headers \<times> nat \<times> rd" where
  "dict_fieldnames (Some names) ln r = (Inr (Some names), Some names, line_num r, r)"
| "dict_fieldnames None ln r =
     (case rd_next r of
        (Inr row, r') \<Rightarrow> (Inr (Some (map CStr row)), Some (map CStr row), line_num r', r')
      | (Inl e, r') \<Rightarrow>
          if e = StopIteration then (Inr None, None, line_num r', r')
          else (Inl e, None, ln, r'))"

text \<open>\<open>getattr(reader, 'fieldnames', None)\<close>: a plain reader has no such attribute.\<close>

fun get_fieldnames :: "reader \<Rightarrow> (error + headers) \<times> reader" where
  "get_fieldnames (ListReader r) = (Inr None, ListReader r)"
| "get_fieldnames (DictReader fn ln r) =
     (case dict_fieldnames fn ln r of (v, fn', ln', r') \<Rightarrow> (v, DictReader fn' ln' r'))"

text \<open>\<open>reader.fieldnames = value\<close>; the C reader object takes no new attribute.\<close>

fun set_fieldnames :: "reader \<Rightarrow> headers \<Rightarrow> error + reader" where
  "set_fieldnames (ListReader r) v = Inl AttributeError"
| "set_fieldnames (DictReader fn ln r) v = Inr (DictReader v ln r)"

text \<open>\<open>d[k] = v\<close> on a dict: an existing key keeps its place.\<close>

fun dict_set :: "(key \<times> cell) list \<Rightarrow> key \<Rightarrow> cell \<Rightarrow> (key \<times> cell) list" where
  "dict_set [] k v = [(k, v)]"
| "dict_set (p # ps) k v = (if fst p = k then (k, v) # ps else p # dict_set ps k v)"

text \<open>
  The mapping \<open>DictReader.__next__\<close> builds from the names and a record: surplus
  fields go under the key \<open>None\<close>, missing ones are \<open>None\<close>.
\<close>

definition make_dict :: "key list \<Rightarrow> string list \<Rightarrow> (key \<times> cell) list" where
  "make_dict names row =
     (let d = foldl (\<lambda>d (k, v). dict_set d k (CStr v)) [] (zip names row);
          lf = length names; lr = length row
      in if lf < lr then dict_set d CNone (CList (drop lf row))
         else if lr < lf then foldl (\<lambda>d k. dict_set d k CNone) d (drop lr names)
         else d)"

text \<open>\<open>while row == []: row = next(self.reader)\<close>\<close>

fun skip_blank :: "string list \<Rightarrow> csv_event list \<Rightarrow> nat \<Rightarrow> nat \<Rightarrow> (error + string list) \<times> rd" where
  "skip_blank row es n c =
     (if row \<noteq> [] then (Inr row, \<lparr>pending = es, line_num = n, consumed = c\<rparr>)
      else case es of
             [] \<Rightarrow> (Inl StopIteration, \<lparr>pending = [], line_num = n, consumed = c\<rparr>)
           | Row k j fs # es' \<Rightarrow> skip_blank fs es' (n + k) (c + j)
           | Bad k j m # es' \<Rightarrow>
               (Inl (CsvError m), \<lparr>pending = es', line_num = n + k, consumed = c + j\<rparr>))"

text \<open>\<open>DictReader.__next__\<close>\<close>

definition dict_next :: "headers \<Rightarrow> nat \<Rightarrow> rd \<Rightarrow> (error + pyval) \<times> reader" where
  "dict_next fn ln r =
     (case (if ln = 0 then dict_fieldnames fn ln r else (Inr fn, fn, ln, r)) of
        (Inl e, fn1, ln1, r1) \<Rightarrow> (Inl e, DictReader fn1 ln1 r1)
      | (Inr _, fn1, ln1, r1) \<Rightarrow>
          (case rd_next r1 of
             (Inl e, r2) \<Rightarrow> (Inl e, DictReader fn1 ln1 r2)
           | (Inr row, r2) \<Rightarrow>
               (case skip_blank row (pending r2) (line_num r2) (consumed r2) of
                  (Inl e, r3) \<Rightarrow> (Inl e, DictReader fn1 (line_num r2) r3)
                | (Inr row', r3) \<Rightarrow>
                    (case dict_fieldnames fn1 (line_num r2) r3 of
                       (Inl e, fn4, ln4, r4) \<Rightarrow> (Inl e, DictReader fn4 ln4 r4)
                     | (Inr None, fn4, ln4, r4) \<Rightarrow> (Inl TypeError, DictReader fn4 ln4 r4)
                     | (Inr (Some names), fn4, ln4, r4) \<Rightarrow>
                         (Inr (PDict (make_dict names row')), DictReader fn4 ln4 r4)))))"

fun reader_next :: "reader \<Rightarrow> (error + pyval) \<times> reader" where
  "reader_next (ListReader r) =
     (case rd_next r of
        (Inr row, r') \<Rightarrow> (Inr (PList (map CStr row)), ListReader r')
      | (Inl e, r') \<Rightarrow> (Inl e, ListReader r'))"
| "reader_next (DictReader fn ln r) = dict_next fn ln r"

text \<open>The records a reader still holds; each successful \<open>next\<close> takes at least one.\<close>

definition remaining :: "reader \<Rightarrow> nat" where
  "remaining rdr = length (pending (rd_of rdr))"

lemma rd_next_shrinks:
  "rd_next r = (Inr row, r') \<Longrightarrow> length (pending r') < length (pending r)"
  by (auto split: list.splits csv_event.splits)

lemma rd_next_le:
  "rd_next r = (v, r') \<Longrightarrow> length (pending r') \<le> length (pending r)"
  by (auto split: list.splits csv_event.splits)

lemma skip_blank_le:
  "skip_blank row es n c = (v, r') \<Longrightarrow> length (pending r') \<le> length es"
proof (induction row es n c arbitrary: v r' rule: skip_blank.induct)
  case (1 row es n c)
  show ?case
  proof (cases "row \<noteq> []")
    case True
    with "1.prems" show ?thesis by auto
  next
    case False
    note blank = this
    show ?thesis
    proof (cases es)
      case Nil
      with blank "1.prems" show ?thesis by auto
    next
      case (Cons ev es')
      show ?thesis
      proof (cases ev)
        case (Row k j fs)
        with blank Cons "1.prems" have "skip_blank fs es' (n + k) (c + j) = (v, r')" by simp
        from "1.IH"[OF blank Cons Row this] Cons show ?thesis by simp
      next
        case (Bad k j m)
        with blank Cons "1.prems" show ?thesis by auto
      qed
    qed
  qed
qed

lemma dict_fieldnames_le:
  "dict_fieldnames fn ln r = (v, fn', ln', r') \<Longrightarrow> length (pending r') \<le> length (pending r)"
  by (cases fn) (auto split: list.splits csv_event.splits if_splits)

lemma dict_next_shrinks:
  assumes "dict_next fn ln r = (Inr v, rdr')"
  shows "remaining rdr' < length (pending r)"
proof -
  obtain a fn1 ln1 r1 where st1:
    "(if ln = 0 then dict_fieldnames fn ln r else (Inr fn, fn, ln, r)) = (a, fn1, ln1, r1)"
    by (metis prod_cases4)
  have le1: "length (pending r1) \<le> length (pending r)"
    using st1 dict_fieldnames_le by (auto split: if_splits)
  from assms st1 obtain x where a: "a = Inr x"
    by (cases a) (auto simp: dict_next_def)
  obtain b r2 where st2: "rd_next r1 = (b, r2)" by (metis surj_pair)
  from assms st1 a st2 obtain row where b: "b = Inr row"
    by (cases b) (auto simp: dict_next_def simp del: rd_next.simps)
  have lt2: "length (pending r2) < length (pending r1)"
    using st2 b rd_next_shrinks by blast
  obtain c r3 where st3: "skip_blank row (pending r2) (line_num r2) (consumed r2) = (c, r3)"
    by (metis surj_pair)
  have le3: "length (pending r3) \<le> length (pending r2)"
    using st3 skip_blank_le by blast
  from assms st1 a st2 b st3 obtain row' where c: "c = Inr row'"
    by (cases c) (auto simp: dict_next_def simp del: rd_next.simps skip_blank.simps)
  obtain d fn4 ln4 r4 where st4: "dict_fieldnames fn1 (line_num r2) r3 = (d, fn4, ln4, r4)"
    by (metis prod_cases4)
  have le4: "length (pending r4) \<le> length (pending r3)"
    using st4 dict_fieldnames_le by blast
  from assms st1 a st2 b st3 c st4 have "rdr' = DictReader fn4 ln4 r4"
    by (auto simp: dict_next_def simp del: rd_next.simps skip_blank.simps dict_fieldnames.simps
        split: sum.splits option.splits)
  with le1 lt2 le3 le4 show ?thesis by (simp add: remaining_def)
qed

lemma reader_next_shrinks:
  "reader_next rdr = (Inr v, rdr') \<Longrightarrow> remaining rdr' < remaining rdr"
proof (cases rdr)
  case (ListReader r)
  assume "reader_next rdr = (Inr v, rdr')"
  with ListReader show ?thesis
    by (auto simp: remaining_def split: list.splits csv_event.splits)
next
  case (DictReader fn ln r)
  assume "reader_next rdr = (Inr v, rdr')"
  with DictReader show ?thesis
    using dict_next_shrinks[of fn ln r v rdr'] by (simp add: remaining_def)
qed

section \<open>Headers before reading\<close>

text \<open>Python truth value of a row.\<close>

fun truthy :: "pyval \<Rightarrow> bool" where
  "truthy PNone = False"
| "truthy (PStr s) = (s \<noteq> [])"
| "truthy (PList cs) = (cs \<noteq> [])"
| "truthy (PDict d) = (d \<noteq> [])"

text \<open>\<open>while not headers: headers = next(reader)\<close>, starting from \<open>headers = None\<close>.\<close>

function pull_headers :: "reader \<Rightarrow> (error + pyval) \<times> reader" where
  "pull_headers rdr =
     (case reader_next rdr of
        (Inl e, rdr') \<Rightarrow> (Inl e, rdr')
      | (Inr v, rdr') \<Rightarrow> if truthy v then (Inr v, rdr') else pull_headers rdr')"
  by pat_completeness auto
termination
proof (relation "measure remaining")
  show "wf (measure remaining)" by simp
next
  fix rdr :: reader and x y b
  assume "(x, y) = reader_next rdr" and "x = Inr b" and "\<not> truthy b"
  then have "reader_next rdr = (Inr b, y)" by simp
  then show "(y, rdr) \<in> measure remaining"
    using reader_next_shrinks by simp
qed

text \<open>\<open>headers[None]\<close> taken as the header set.\<close>

fun cell_as_headers :: "cell \<Rightarrow> headers" where
  "cell_as_headers CNone = None"
| "cell_as_headers (CStr str) = Some (map (\<lambda>c. CStr [c]) str)"
| "cell_as_headers (CList fs) = Some (map CStr fs)"

text \<open>
  \<open>_detect_headers\<close>. The check after the loop is kept where the source has it: the
  loop ends only on a truthy value or on the exception of \<open>next\<close>.
\<close>

definition detect_headers :: "session \<Rightarrow> reader \<Rightarrow> error option \<times> session \<times> reader" where
  "detect_headers s rdr =
     (if has_headers (headers s) then (None, s, rdr)
      else if \<not> headers_is_first_line s then (None, s, rdr)
      else
        case get_fieldnames rdr of
          (Inl e, rdr1) \<Rightarrow> (Some e, s, rdr1)
        | (Inr fn, rdr1) \<Rightarrow>
            if has_headers fn then (None, s\<lparr>headers := fn\<rparr>, rdr1)
            else
              case pull_headers rdr1 of
                (Inl e, rdr2) \<Rightarrow> (Some e, s, rdr2)
              | (Inr h, rdr2) \<Rightarrow>
                  if \<not> truthy h then (Some (Error Absolutely_empty_file), s, rdr2)
                  else
                    case h of
                      PDict d \<Rightarrow>
                        (case map_of d CNone of
                           None \<Rightarrow> (Some KeyError, s, rdr2)
                         | Some v \<Rightarrow>
                             (case set_fieldnames rdr2 (cell_as_headers v) of
                                Inl e \<Rightarrow> (Some e, s\<lparr>headers := cell_as_headers v\<rparr>, rdr2)
                              | Inr rdr3 \<Rightarrow> (None, s\<lparr>headers := cell_as_headers v\<rparr>, rdr3)))
                    | PList cs \<Rightarrow> (None, s\<lparr>headers := Some cs\<rparr>, rdr2)
                    | _ \<Rightarrow> (Some (Error Inappropriate_headers_format), s, rdr2))"

text \<open>\<open>_process_headers\<close>\<close>

definition process_headers :: "session \<Rightarrow> reader \<Rightarrow> error option \<times> session \<times> reader" where
  "process_headers s rdr =
     (case headers_process_by s of
        None \<Rightarrow> (None, s, rdr)
      | Some f \<Rightarrow>
          (case f (headers s) of
             Inl e \<Rightarrow> (Some e, s, rdr)
           | Inr hs \<Rightarrow>
               (case get_fieldnames rdr of
                  (Inl e, rdr1) \<Rightarrow> (Some e, s\<lparr>headers := hs\<rparr>, rdr1)
                | (Inr fn, rdr1) \<Rightarrow>
                    if has_headers fn \<and> fn \<noteq> hs then
                      (case set_fieldnames rdr1 hs of
                         Inl e \<Rightarrow> (Some e, s\<lparr>headers := hs\<rparr>, rdr1)
                       | Inr rdr2 \<Rightarrow> (None, s\<lparr>headers := hs\<rparr>, rdr2))
                    else (None, s\<lparr>headers := hs\<rparr>, rdr1))))"

section \<open>Reading\<close>

text \<open>The row transform receives the row, the reader's line number and the file name.\<close>

type_synonym process_by = "pyval \<Rightarrow> nat \<Rightarrow> string option \<Rightarrow> error + pyval"

text \<open>\<open>except csv.Error as e: sys.exit(...)\<close>; any other exception passes.\<close>

fun on_csv_error :: "string option \<Rightarrow> nat \<Rightarrow> error \<Rightarrow> error" where
  "on_csv_error fname ln (CsvError m) = SystemExit fname ln m"
| "on_csv_error fname ln e = e"

lemma reader_next_shrinks_sym:
  "(Inr v, rdr') = reader_next rdr \<Longrightarrow> remaining rdr' < remaining rdr"
  using reader_next_shrinks[of rdr v rdr'] by simp

text \<open>
  The loop of \<open>readlines\<close> inside its \<open>try\<close>: the exception that ends it, if any, and
  the rows yielded. The \<open>StopIteration\<close> of the reader ends the \<open>for\<close> normally.
\<close>

function read_loop ::
  "process_by option \<Rightarrow> string option \<Rightarrow> reader \<Rightarrow> error option \<times> pyval list \<times> reader" where
  "read_loop pb fname rdr =
     (case reader_next rdr of
        (Inl e, rdr') \<Rightarrow>
          if e = StopIteration then (None, [], rdr')
          else (Some (on_csv_error fname (reader_line_num rdr') e), [], rdr')
      | (Inr line, rdr') \<Rightarrow>
          (case (case pb of None \<Rightarrow> Inr line
                 | Some f \<Rightarrow> f line (reader_line_num rdr') fname) of
             Inl e \<Rightarrow> (Some (on_csv_error fname (reader_line_num rdr') e), [], rdr')
           | Inr line' \<Rightarrow>
               (case read_loop pb fname rdr' of
                  (fin, ys, rdr'') \<Rightarrow> (fin, (if line' = PNone then ys else line' # ys), rdr''))))"
  by pat_completeness auto
termination
  by (relation "measure (\<lambda>(pb, fname, rdr). remaining rdr)")
     (auto dest: reader_next_shrinks_sym)

text \<open>\<open>reader\<close>: the reader built on the open stream, from where the stream stands.\<close>

definition make_reader :: "session \<Rightarrow> bool \<Rightarrow> strio \<Rightarrow> reader" where
  "make_reader s asdict f =
     (let r = \<lparr>pending = parse (dialect s) (strio_rest f), line_num = 0, consumed = 0\<rparr>
      in if asdict then DictReader (if has_headers (headers s) then headers s else None) 0 r
         else ListReader r)"

definition advance :: "strio \<Rightarrow> reader \<Rightarrow> strio" where
  "advance f rdr = f\<lparr>pos := pos f + consumed (rd_of rdr)\<rparr>"

text \<open>A \<open>StopIteration\<close> that leaves a generator body reaches the caller as \<open>RuntimeError\<close>.\<close>

definition gen_exit :: "error \<Rightarrow> error" where
  "gen_exit e = (if e = StopIteration then RuntimeError else e)"

text \<open>
  \<open>readlines\<close>, consumed to its end: the exception the generator ends with, if any,
  the rows it yields before, the file system and the session.
\<close>

definition readlines ::
  "world \<Rightarrow> session \<Rightarrow> bool \<Rightarrow> process_by option
     \<Rightarrow> error option \<times> pyval list \<times> world \<times> session" where
  "readlines w s asdict pb =
     (if \<not> file_is_exists s then (Some FileNotFoundError, [], w, s)
      else
        case with_open False w s []
               (\<lambda>f. case detect_headers s (make_reader s asdict f) of
                       (Some e, s1, rdr1) \<Rightarrow> (Some e, [], advance f rdr1, s1)
                     | (None, s1, rdr1) \<Rightarrow>
                         (case process_headers s1 rdr1 of
                            (Some e, s2, rdr2) \<Rightarrow> (Some e, [], advance f rdr2, s2)
                          | (None, s2, rdr2) \<Rightarrow>
                              (case read_loop pb (filename s2) rdr2 of
                                 (fin, ys, rdr3) \<Rightarrow> (fin, ys, advance f rdr3, s2))))
        of (fin, ys, w', s') \<Rightarrow> (map_option gen_exit fin, ys, w', s'))"

section \<open>Writing\<close>

text \<open>The rows handed to \<open>writelines\<close>: a list or tuple, or a generator with its items.\<close>

datatype rows = RList "pyval list" | RGen "pyval list"

fun items :: "rows \<Rightarrow> pyval list" where
  "items (RList xs) = xs"
| "items (RGen xs) = xs"

fun is_generator :: "rows \<Rightarrow> bool" where
  "is_generator (RList xs) = False"
| "is_generator (RGen xs) = True"

text \<open>
  \<open>_detect_headers_before_write\<close>: \<open>next(rows)\<close> takes the first item out of a
  generator, \<open>rows[0]\<close> leaves a list as it is. It returns the keys, the first row and
  the rows as they now stand.
\<close>

fun first_row :: "rows \<Rightarrow> error + pyval \<times> rows" where
  "first_row (RGen []) = Inl StopIteration"
| "first_row (RGen (x # xs)) = Inr (x, RGen xs)"
| "first_row (RList []) = Inl IndexError"
| "first_row (RList (x # xs)) = Inr (x, RList (x # xs))"

definition detect_headers_before_write :: "rows \<Rightarrow> error + key list \<times> pyval \<times> rows" where
  "detect_headers_before_write rws =
     (case first_row rws of
        Inl e \<Rightarrow> Inl e
      | Inr (PDict d, rws') \<Rightarrow> Inr (map fst d, PDict d, rws')
      | Inr (_, rws') \<Rightarrow> Inl ValueError)"

text \<open>\<open>isinstance(row, dict)\<close>\<close>

fun is_dict :: "pyval \<Rightarrow> bool" where
  "is_dict (PDict d) = True"
| "is_dict v = False"

text \<open>A \<open>csv.writer\<close>, or a \<open>csv.DictWriter\<close> with its field names.\<close>

datatype writer = ListWriter | DictWriter "key list"

fun is_DictWriter :: "writer \<Rightarrow> bool" where
  "is_DictWriter ListWriter = False"
| "is_DictWriter (DictWriter names) = True"

text \<open>
  \<open>csv.writer.writerow\<close> iterates its argument: \<open>None\<close> is refused with the
  library's error, a string gives its characters, a dict its keys.
\<close>

fun fields_of :: "pyval \<Rightarrow> error + cell list" where
  "fields_of PNone = Inl (CsvError ''iterable expected, not NoneType'')"
| "fields_of (PStr str) = Inr (map (\<lambda>c. CStr [c]) str)"
| "fields_of (PList cs) = Inr cs"
| "fields_of (PDict d) = Inr (map fst d)"

definition csv_line :: "dialect \<Rightarrow> pyval \<Rightarrow> error + string" where
  "csv_line d row =
     (case fields_of row of
        Inl e \<Rightarrow> Inl e
      | Inr cs \<Rightarrow> format_row d cs)"

text \<open>
  \<open>DictWriter._dict_to_list\<close>: the row must have \<open>keys()\<close>, a key outside the field
  names is an error, a missing one gives the empty string.
\<close>

fun dict_to_list :: "key list \<Rightarrow> pyval \<Rightarrow> error + pyval" where
  "dict_to_list names (PDict d) =
     (if list_ex (\<lambda>k. k \<notin> set names) (map fst d) then Inl ValueError
      else Inr (PList (map (\<lambda>k. case map_of d k of Some v \<Rightarrow> v | None \<Rightarrow> CStr []) names)))"
| "dict_to_list names row = Inl AttributeError"

text \<open>The characters \<open>writerow\<close> sends to the stream for a row, or its exception.\<close>

fun row_line :: "writer \<Rightarrow> dialect \<Rightarrow> pyval \<Rightarrow> error + string" where
  "row_line ListWriter d row = csv_line d row"
| "row_line (DictWriter names) d row =
     (case dict_to_list names row of
        Inl e \<Rightarrow> Inl e
      | Inr r \<Rightarrow> csv_line d r)"

definition writerow :: "writer \<Rightarrow> dialect \<Rightarrow> strio \<Rightarrow> pyval \<Rightarrow> error option \<times> strio" where
  "writerow wr d f row =
     (case row_line wr d row of
        Inl e \<Rightarrow> (Some e, f)
      | Inr line \<Rightarrow> (None, strio_write f line))"

text \<open>
  \<open>DictWriter.writeheader\<close> writes the field names as a row; a plain writer has no
  such method.
\<close>

fun writeheader :: "writer \<Rightarrow> dialect \<Rightarrow> strio \<Rightarrow> error option \<times> strio" where
  "writeheader ListWriter d f = (Some AttributeError, f)"
| "writeheader (DictWriter names) d f = writerow ListWriter d f (PList names)"

text \<open>\<open>for line in rows: writer.writerow(line)\<close>\<close>

fun write_rows :: "writer \<Rightarrow> dialect \<Rightarrow> strio \<Rightarrow> pyval list \<Rightarrow> error option \<times> strio" where
  "write_rows wr d f [] = (None, f)"
| "write_rows wr d f (x # xs) =
     (case writerow wr d f x of
        (Some e, f') \<Rightarrow> (Some e, f')
      | (None, f') \<Rightarrow> write_rows wr d f' xs)"

text \<open>
  The writer that \<open>writer\<close> yields on the open stream. \<open>DictWriter\<close> needs its field
  names: built without them it raises \<open>TypeError\<close>.
\<close>

definition make_writer :: "session \<Rightarrow> bool \<Rightarrow> error + writer" where
  "make_writer s asdict =
     (if asdict then
        (case headers s of
           None \<Rightarrow> Inl TypeError
         | Some hs \<Rightarrow> if hs = [] then Inl TypeError else Inr (DictWriter hs))
      else Inr ListWriter)"

text \<open>The body of the \<open>with\<close> statement of \<open>writelines\<close>.\<close>

definition write_body ::
  "session \<Rightarrow> writer \<Rightarrow> rows \<Rightarrow> pyval \<Rightarrow> strio \<Rightarrow> error option \<times> strio" where
  "write_body s wr rws first_line f =
     (if \<not> has_headers (headers s) \<and> is_DictWriter wr then
        (Some (CsvError ''No headers set - write prohibited! Try to set asdict=True''), f)
      else
        case (if has_headers (headers s) \<and> is_DictWriter wr then writeheader wr (dialect s) f
              else (None, f)) of
          (Some e, f1) \<Rightarrow> (Some e, f1)
        | (None, f1) \<Rightarrow>
            (case (if is_generator rws then writerow wr (dialect s) f1 first_line
                   else (None, f1)) of
               (Some e, f2) \<Rightarrow> (Some e, f2)
             | (None, f2) \<Rightarrow> write_rows wr (dialect s) f2 (items rws)))"

text \<open>
  The first block of \<open>writelines\<close>: header inference when \<open>asdict\<close> is set and no
  headers are. It gives the exception, if any, the session, \<open>first_line\<close> and the rows
  as they now stand. The headers are assigned before \<open>first_line\<close> is tested.
\<close>

definition infer_headers ::
  "session \<Rightarrow> rows \<Rightarrow> bool \<Rightarrow> error option \<times> session \<times> pyval \<times> rows" where
  "infer_headers s rws asdict =
     (if asdict \<and> \<not> has_headers (headers s) then
        (case detect_headers_before_write rws of
           Inl e \<Rightarrow> (Some e, s, PNone, rws)
         | Inr (hs, first, rws') \<Rightarrow>
             if \<not> truthy first
             then (Some (Error First_line_has_no_data), s\<lparr>headers := Some hs\<rparr>, first, rws')
             else (None, s\<lparr>headers := Some hs\<rparr>, first, rws'))
      else (None, s, PNone, rws))"

text \<open>
  \<open>writelines\<close>: header inference, then \<open>writer\<close> with its overwrite check, then the
  body on the open stream. It returns the text of an in-memory session, and nothing for
  a file.
\<close>

definition writelines ::
  "world \<Rightarrow> session \<Rightarrow> rows \<Rightarrow> bool \<Rightarrow> bool \<Rightarrow> (error + string option) \<times> world \<times> session" where
  "writelines w s rws asdict overwrite =
     (case infer_headers s rws asdict of
        (Some e, s1, first_line, rws1) \<Rightarrow> (Inl e, w, s1)
      | (None, s1, first_line, rws1) \<Rightarrow>
          if file_is_exists s1 \<and> \<not> overwrite then (Inl FileExistsError, w, s1)
          else
            (case with_open True w s1 ()
                    (\<lambda>f. case make_writer s1 asdict of
                            Inl e \<Rightarrow> (Some e, (), f, s1)
                          | Inr wr \<Rightarrow>
                              (case write_body s1 wr rws1 first_line f of
                                 (r, f') \<Rightarrow> (r, (), f', s1)))
             of (Some e, _, w', s') \<Rightarrow> (Inl e, w', s')
              | (None, _, w', s') \<Rightarrow> (Inr (map_option buf (text_io s')), w', s')))"

section \<open>A dialect to compute with\<close>

text \<open>
  The tab-separated conventions of the library's \<open>excel-tab\<close> dialect on an in-memory
  text, for fields that hold no tab, quote, carriage return or line feed: a row is
  written as its fields joined by tabs and ended by CR LF (a lone empty field as two
  quotes); a line read is split at the tabs, a line with nothing before its end is an
  empty record, and a carriage return inside a line is the parser's structural error.
\<close>

definition TAB :: char where "TAB = CHR 0x09"
definition LF :: char where "LF = CHR 0x0A"
definition CR :: char where "CR = CHR 0x0D"

fun join :: "string \<Rightarrow> string list \<Rightarrow> string" where
  "join sep [] = []"
| "join sep [x] = x"
| "join sep (x # y # ys) = x @ sep @ join sep (y # ys)"

fun split_on :: "char \<Rightarrow> string \<Rightarrow> string list" where
  "split_on c [] = [[]]"
| "split_on c (x # xs) =
     (case split_on c xs of
        [] \<Rightarrow> [[x]]
      | y # ys \<Rightarrow> if x = c then [] # y # ys else (x # y) # ys)"

fun cell_text :: "cell \<Rightarrow> string" where
  "cell_text CNone = []"
| "cell_text (CStr str) = str"
| "cell_text (CList fs) = ''['' @ join '', '' (map (\<lambda>x. [CHR 0x27] @ x @ [CHR 0x27]) fs) @ '']''"

definition simple_format :: "cell list \<Rightarrow> error + string" where
  "simple_format cs =
     Inr ((if map cell_text cs = [[]] then [CHR 0x22, CHR 0x22]
           else join [TAB] (map cell_text cs)) @ [CR, LF])"

fun strip_cr :: "string \<Rightarrow> string" where
  "strip_cr str = rev (dropWhile (\<lambda>c. c = CR) (rev str))"

definition line_event :: "string \<Rightarrow> nat \<Rightarrow> csv_event" where
  "line_event content n =
     (let body = strip_cr content
      in if CR \<in> set body
         then Bad 1 n
           ''new-line character seen in unquoted field - do you need to open the file in universal-newline mode?''
         else Row 1 n (if body = [] then [] else split_on TAB body))"

fun scan_lines :: "string \<Rightarrow> string \<Rightarrow> csv_event list" where
  "scan_lines cur [] = (if cur = [] then [] else [line_event cur (length cur)])"
| "scan_lines cur (c # cs) =
     (if c = LF then line_event cur (Suc (length cur)) # scan_lines [] cs
      else scan_lines (cur @ [c]) cs)"

definition simple_tab :: dialect where
  "simple_tab = \<lparr>parse = scan_lines [], format_row = simple_format\<rparr>"

section \<open>Concrete inputs\<close>

text \<open>A sniffer that finds no dialect; the sessions below name their dialect.\<close>

definition no_sniff :: "string \<Rightarrow> error + dialect" where
  "no_sniff sample = Inl (CsvError ''Could not determine delimiter'')"

text \<open>The text of two records \<open>a, b\<close> and \<open>c, d\<close>, each ended by CR LF.\<close>

definition two_lines :: string where
  "two_lines = [CHR ''a'', TAB, CHR ''b'', CR, LF, CHR ''c'', TAB, CHR ''d'', CR, LF]"

text \<open>\<open>tsv(text=str, headers_is_first_line=hfl)\<close> with the dialect above.\<close>

definition text_session :: "string \<Rightarrow> bool \<Rightarrow> error + session" where
  "text_session str hfl =
     init no_sniff Map.empty (Some simple_tab) None (Some (TStr str)) None hfl None"

text \<open>\<open>tsv(text="")\<close>, the in-memory destination of the docstring.\<close>

definition empty_text_session :: session where
  "empty_text_session =
     \<lparr>filename = None, file_is_exists = True, text_io = Some \<lparr>buf = [], pos = 0\<rparr>,
      dialect = simple_tab, headers = None, headers_is_first_line = True,
      headers_process_by = None\<rparr>"

text \<open>A file system that holds \<open>out.tsv\<close>, and \<open>tsv(filename="out.tsv")\<close> built on it.\<close>

definition old_world :: world where
  "old_world = [''out.tsv'' \<mapsto> ''old'']"

definition file_session :: session where
  "file_session =
     \<lparr>filename = Some ''out.tsv'', file_is_exists = True, text_io = None,
      dialect = simple_tab, headers = None, headers_is_first_line = True,
      headers_process_by = None\<rparr>"

text \<open>Two mapping rows over the keys \<open>a\<close> and \<open>b\<close>, and the text they are written as.\<close>

definition ab_row :: "(key \<times> cell) list" where
  "ab_row = [(CStr ''a'', CStr ''1''), (CStr ''b'', CStr ''2'')]"

definition ba_row :: "(key \<times> cell) list" where
  "ba_row = [(CStr ''b'', CStr ''4''), (CStr ''a'', CStr ''3'')]"

definition ab_text :: string where
  "ab_text = [CHR ''a'', TAB, CHR ''b'', CR, LF, CHR ''1'', TAB, CHR ''2'', CR, LF,
              CHR ''3'', TAB, CHR ''4'', CR, LF]"

section \<open>Reading: what the header step takes\<close>

text \<open>
  Claim C1. In list-mode with no headers supplied, \<open>readlines\<close> should take no line
  as a header line and yield every record. The code runs the header step in both modes:
  with the default \<open>headers_is_first_line = True\<close> the first record of the two-line
  text becomes the header set and only the second is yielded.
\<close>

theorem C1_list_mode_first_record_taken:
  "(case text_session two_lines True of
      Inl e \<Rightarrow> False
    | Inr s \<Rightarrow>
        (case readlines Map.empty s False None of
           (fin, ys, w, s') \<Rightarrow>
             fin = None \<and> ys = [PList [CStr ''c'', CStr ''d'']]
             \<and> headers s' = Some [CStr ''a'', CStr ''b'']))"
  by code_simp

text \<open>
  Claim C3. A record-mode read of a source with no record, or with blank lines only,
  should fail with the wrapper's own \<open>Error\<close>. In the code \<open>next\<close> raises
  \<open>StopIteration\<close> inside the loop, before the check that raises \<open>Error\<close>, and the
  generator hands it to the caller as \<open>RuntimeError\<close>.
\<close>

theorem C3_exhausted_stream_is_runtime_error:
  "(case text_session [] True of
      Inl e \<Rightarrow> False
    | Inr s \<Rightarrow> fst (readlines Map.empty s True None) = Some RuntimeError)
   \<and> (case text_session [CR, LF, CR, LF] True of
         Inl e \<Rightarrow> False
       | Inr s \<Rightarrow> fst (readlines Map.empty s True None) = Some RuntimeError)"
  by code_simp

section \<open>Construction\<close>

text \<open>
  Claim C6. Supplying both a file name and a text should raise the configuration
  error. The first check of \<open>__init__\<close> tests truth values, so a file name together
  with the empty text passes it, and the session is built with both set.
\<close>

theorem C6_file_name_with_empty_text_accepted:
  "(case init no_sniff Map.empty (Some simple_tab) (Some ''out.tsv'') (Some (TStr [])) None
           True None of
      Inl e \<Rightarrow> False
    | Inr s \<Rightarrow>
        filename s = Some ''out.tsv'' \<and> text_io s = Some \<lparr>buf = [], pos = 0\<rparr>
        \<and> file_is_exists s)"
  by code_simp

text \<open>The loop of \<open>_detect_headers\<close> never ends with a falsy value.\<close>

lemma pull_headers_truthy:
  "pull_headers rdr = (Inr h, rdr') \<Longrightarrow> truthy h"
proof (induction rdr rule: pull_headers.induct)
  case (1 rdr)
  obtain x y where nx: "reader_next rdr = (x, y)" by (metis surj_pair)
  show ?case
  proof (cases x)
    case (Inl e)
    with nx "1.prems" show ?thesis by (simp add: pull_headers.simps[of rdr])
  next
    case (Inr b)
    show ?thesis
    proof (cases "truthy b")
      case True
      with nx Inr "1.prems" show ?thesis by (simp add: pull_headers.simps[of rdr])
    next
      case False
      with nx Inr "1.prems" have "pull_headers y = (Inr h, rdr')"
        by (simp add: pull_headers.simps[of rdr])
      from "1.IH"[OF nx[symmetric] Inr False this] show ?thesis .
    qed
  qed
qed

text \<open>
  Claim C10. A structural error of the parser should never reach the caller as an
  ordinary exception but end the process. The \<open>try\<close> of \<open>readlines\<close> encloses the
  loop over the data rows only: an error in the record that the header step pulls
  reaches the caller as the parser's own exception, while the same malformed line
  further down ends in \<open>SystemExit\<close> with the file name and the line number.
\<close>

theorem C10_malformed_header_record_propagates:
  "(case text_session [CHR ''a'', CR, CHR ''b'', LF, CHR ''c'', LF] True of
      Inl e \<Rightarrow> False
    | Inr s \<Rightarrow> (case readlines Map.empty s False None of
           (fin, ys, w, s') \<Rightarrow> (case fin of Some (CsvError m) \<Rightarrow> True | _ \<Rightarrow> False) \<and> ys = []))
 \<and> (case text_session [CHR ''c'', LF, CHR ''d'', LF, CHR ''a'', CR, CHR ''b'', LF] True of
      Inl e \<Rightarrow> False
    | Inr s \<Rightarrow> (case readlines Map.empty s False None of
           (fin, ys, w, s') \<Rightarrow> (case fin of Some (SystemExit None n m) \<Rightarrow> n = 3 | _ \<Rightarrow> False) \<and> ys = [PList [CStr ''d'']]))"
  by code_simp

section \<open>Writing: lemmas on the stream and the body\<close>

lemma strio_write_append:
  "strio_write (strio_write f a) b = strio_write f (a @ b)"
  by (cases "a = []"; cases "b = []") (auto simp: strio_write_def min_def ac_simps)

lemma strio_write_fresh: "buf (strio_write \<lparr>buf = [], pos = 0\<rparr> out) = out"
  by (simp add: strio_write_def)

lemma write_rows_ok:
  "map (row_line wr d) xs = map Inr ls \<Longrightarrow>
     write_rows wr d f xs = (None, strio_write f (concat ls))"
proof (induction xs arbitrary: f ls)
  case Nil
  then show ?case by (simp add: strio_write_def)
next
  case (Cons x xs)
  then obtain l ls' where ls: "ls = l # ls'" and l: "row_line wr d x = Inr l"
    and rest: "map (row_line wr d) xs = map Inr ls'"
    by (cases ls) auto
  from Cons.IH[OF rest] l show ?case
    by (simp add: ls writerow_def strio_write_append)
qed

lemma writelines_text_ok:
  assumes "infer_headers s rws asdict = (None, s1, first, rws1)"
    and "\<not> file_is_exists s1 \<or> overwrite"
    and "text_io s1 = Some t" and "filename s1 = None"
    and "make_writer s1 asdict = Inr wr"
    and "write_body s1 wr rws1 first t = (None, t')"
  shows "writelines w s rws asdict overwrite
           = (Inr (Some (buf t')), w, s1\<lparr>text_io := Some t'\<rparr>)"
  using assms by (auto simp: writelines_def with_open_def)

lemma writelines_file_ok:
  assumes "infer_headers s rws asdict = (None, s1, first, rws1)"
    and "\<not> file_is_exists s1 \<or> overwrite"
    and "text_io s1 = None" and "filename s1 = Some p"
    and "make_writer s1 asdict = Inr wr"
    and "write_body s1 wr rws1 first \<lparr>buf = [], pos = 0\<rparr> = (None, t')"
  shows "writelines w s rws asdict overwrite = (Inr None, w(p \<mapsto> buf t'), s1)"
  using assms by (auto simp: writelines_def with_open_def)

lemma infer_from_dict:
  assumes "\<not> has_headers (headers s)" and "d \<noteq> []"
    and "first_row rws = Inr (PDict d, rws')"
  shows "infer_headers s rws True = (None, s\<lparr>headers := Some (map fst d)\<rparr>, PDict d, rws')"
  using assms by (simp add: infer_headers_def detect_headers_before_write_def)

lemma dict_body_ok:
  assumes "headers s1 = Some names" and "names \<noteq> []"
    and "csv_line (dialect s1) (PList names) = Inr hline"
    and "map (row_line (DictWriter names) (dialect s1)) (PDict d # rest) = map Inr (l1 # ls)"
  shows "write_body s1 (DictWriter names) (RGen rest) (PDict d) f
           = (None, strio_write f (hline @ l1 @ concat ls))"
    and "write_body s1 (DictWriter names) (RList (PDict d # rest)) first f
           = (None, strio_write f (hline @ l1 @ concat ls))"
proof -
  from assms(4) have l1: "row_line (DictWriter names) (dialect s1) (PDict d) = Inr l1"
    and ls: "map (row_line (DictWriter names) (dialect s1)) rest = map Inr ls"
    by simp_all
  have hdr: "writeheader (DictWriter names) (dialect s1) f = (None, strio_write f hline)"
    using assms(3) by (simp add: writerow_def)
  have one: "writerow (DictWriter names) (dialect s1) (strio_write f hline) (PDict d)
               = (None, strio_write f (hline @ l1))"
    using l1 by (simp add: writerow_def strio_write_append del: row_line.simps)
  show "write_body s1 (DictWriter names) (RGen rest) (PDict d) f
           = (None, strio_write f (hline @ l1 @ concat ls))"
    using assms(1,2) hdr one write_rows_ok[OF ls, of "strio_write f (hline @ l1)"]
    by (simp add: write_body_def strio_write_append del: writeheader.simps)
  have "write_rows (DictWriter names) (dialect s1) (strio_write f hline) (PDict d # rest)
          = (None, strio_write f (hline @ l1 @ concat ls))"
    using write_rows_ok[OF assms(4), of "strio_write f hline"]
    by (simp add: strio_write_append)
  then show "write_body s1 (DictWriter names) (RList (PDict d # rest)) first f
           = (None, strio_write f (hline @ l1 @ concat ls))"
    using assms(1,2) hdr
    by (simp add: write_body_def del: writeheader.simps write_rows.simps)
qed

lemma text_session_empty: "text_session [] True = Inr empty_text_session"
  by (simp add: text_session_def init_def empty_text_session_def)

lemma with_open_fails:
  assumes "\<And>f. \<exists>e. fst (body f) = Some e"
  shows "\<exists>e. fst (with_open writing w s dflt body) = Some e"
proof -
  have b: "\<exists>e v t' s'. body f = (Some e, v, t', s')" for f
  proof -
    obtain r v t' s' where "body f = (r, v, t', s')" by (metis prod_cases4)
    with assms[of f] show ?thesis by auto
  qed
  show ?thesis
  proof (cases "text_io s")
    case (Some t)
    from b[of t] obtain e v t' s' where "body t = (Some e, v, t', s')" by blast
    with Some show ?thesis by (simp add: with_open_def)
  next
    case None
    show ?thesis
    proof (cases "filename s")
      case fnone: None
      with None show ?thesis by (simp add: with_open_def)
    next
      case (Some p)
      from b[of "\<lparr>buf = [], pos = 0\<rparr>"] obtain e v t' s'
        where w0: "body \<lparr>buf = [], pos = 0\<rparr> = (Some e, v, t', s')" by blast
      show ?thesis
      proof (cases "w p")
        case wn: None
        with None Some w0 show ?thesis by (simp add: with_open_def)
      next
        case (Some c)
        from b[of "\<lparr>buf = c, pos = 0\<rparr>"] obtain e1 v1 t1 s1
          where "body \<lparr>buf = c, pos = 0\<rparr> = (Some e1, v1, t1, s1)" by blast
        with None \<open>filename s = Some p\<close> Some w0 show ?thesis by (simp add: with_open_def)
      qed
    qed
  qed
qed

lemma gen_body_fails:
  "fst (write_body s wr (RGen xs) PNone f) \<noteq> None
   \<and> write_body s wr (RGen xs) PNone f = write_body s wr (RGen []) PNone f"
  by (cases wr) (auto simp: write_body_def writerow_def csv_line_def split: prod.splits option.splits)

lemma init_file_session:
  "init sniff w (Some dia) (Some p) None hs hfl hpb
     = Inr \<lparr>filename = Some p, file_is_exists = (w p \<noteq> None), text_io = None, dialect = dia,
            headers = hs, headers_is_first_line = hfl, headers_process_by = hpb\<rparr>"
  by (simp add: init_def)

lemma infer_keeps:
  assumes "infer_headers s rws asdict = (r, s1, fl, rws1)"
  shows "file_is_exists s1 = file_is_exists s" and "filename s1 = filename s"
    and "text_io s1 = text_io s" and "dialect s1 = dialect s"
  using assms
  by (auto simp: infer_headers_def split: if_splits sum.splits prod.splits)

lemma refused:
  assumes "file_is_exists s"
  shows "fst (snd (writelines w s rws asdict False)) = w"
    and "\<exists>e. fst (writelines w s rws asdict False) = Inl e"
    and "fst (infer_headers s rws asdict) = None \<Longrightarrow>
           fst (writelines w s rws asdict False) = Inl FileExistsError"
    and "text_io (snd (snd (writelines w s rws asdict False))) = text_io s"
proof -
  obtain r s1 fl rws1 where inf: "infer_headers s rws asdict = (r, s1, fl, rws1)"
    by (metis prod_cases4)
  from infer_keeps[OF inf] assms have ex: "file_is_exists s1" and tx: "text_io s1 = text_io s"
    by simp_all
  show "fst (snd (writelines w s rws asdict False)) = w"
    using inf ex by (cases r) (simp_all add: writelines_def)
  show "\<exists>e. fst (writelines w s rws asdict False) = Inl e"
    using inf ex by (cases r) (simp_all add: writelines_def)
  show "text_io (snd (snd (writelines w s rws asdict False))) = text_io s"
    using inf ex tx by (cases r) (simp_all add: writelines_def)
  assume "fst (infer_headers s rws asdict) = None"
  with inf ex show "fst (writelines w s rws asdict False) = Inl FileExistsError"
    by (simp add: writelines_def)
qed

lemma list_body_ok:
  assumes "map (csv_line (dialect s)) xs = map Inr ls"
  shows "write_body s ListWriter (RList xs) fl f = (None, strio_write f (concat ls))"
proof -
  have "row_line ListWriter (dialect s) = csv_line (dialect s)"
    by (rule ext) simp
  with assms have "map (row_line ListWriter (dialect s)) xs = map Inr ls"
    by simp
  from write_rows_ok[OF this] show ?thesis
    by (simp add: write_body_def)
qed

lemma infer_list_mode: "infer_headers s rws False = (None, s, PNone, rws)"
  by (simp add: infer_headers_def)

lemma infer_not_dict:
  assumes "\<not> has_headers (headers s)" and "first_row rws = Inr (x, rws')" and "\<not> is_dict x"
  shows "infer_headers s rws True = (Some ValueError, s, PNone, rws)"
  using assms by (cases x) (simp_all add: infer_headers_def detect_headers_before_write_def)

section \<open>Writing: rows from a generator\<close>

text \<open>
  Claim C4. A generator written in mapping-mode with no headers set: header inference
  takes the first item, a non-empty mapping \<open>d\<close>, and the destination receives the
  header row, then the row of \<open>d\<close>, then the rows of the remaining items in order.
  The rows are taken as writable (the library renders each of them), and the
  destination as open to writing. The result is given for an in-memory session and for
  a file session.
\<close>

theorem C4_generator_first_row_written:
  assumes "\<not> has_headers (headers s)" and "d \<noteq> []"
    and "\<not> file_is_exists s \<or> overwrite"
    and "csv_line (dialect s) (PList (map fst d)) = Inr hline"
    and "map (row_line (DictWriter (map fst d)) (dialect s)) (PDict d # rest) = map Inr (l1 # ls)"
  shows "(text_io s = Some t \<and> filename s = None \<longrightarrow>
            writelines w s (RGen (PDict d # rest)) True overwrite
              = (Inr (Some (buf (strio_write t (hline @ l1 @ concat ls)))), w,
                 s\<lparr>headers := Some (map fst d),
                   text_io := Some (strio_write t (hline @ l1 @ concat ls))\<rparr>))
       \<and> (text_io s = None \<and> filename s = Some p \<longrightarrow>
            writelines w s (RGen (PDict d # rest)) True overwrite
              = (Inr None, w(p \<mapsto> hline @ l1 @ concat ls), s\<lparr>headers := Some (map fst d)\<rparr>))"
proof -
  let ?s1 = "s\<lparr>headers := Some (map fst d)\<rparr>"
  have inf: "infer_headers s (RGen (PDict d # rest)) True = (None, ?s1, PDict d, RGen rest)"
    using assms(1,2) by (simp add: infer_from_dict)
  have names: "map fst d \<noteq> []" using assms(2) by simp
  have mw: "make_writer ?s1 True = Inr (DictWriter (map fst d))"
    using names by (simp add: make_writer_def)
  have body: "\<And>f. write_body ?s1 (DictWriter (map fst d)) (RGen rest) (PDict d) f
                 = (None, strio_write f (hline @ l1 @ concat ls))"
    using dict_body_ok(1)[of ?s1 "map fst d" hline d rest l1 ls] names assms(4,5) by simp
  show ?thesis
  proof (intro conjI impI)
    assume a: "text_io s = Some t \<and> filename s = None"
    show "writelines w s (RGen (PDict d # rest)) True overwrite
              = (Inr (Some (buf (strio_write t (hline @ l1 @ concat ls)))), w,
                 s\<lparr>headers := Some (map fst d),
                   text_io := Some (strio_write t (hline @ l1 @ concat ls))\<rparr>)"
      using writelines_text_ok[OF inf _ _ _ mw body, of overwrite t w] a assms(3) by simp
  next
    assume a: "text_io s = None \<and> filename s = Some p"
    show "writelines w s (RGen (PDict d # rest)) True overwrite
              = (Inr None, w(p \<mapsto> hline @ l1 @ concat ls), s\<lparr>headers := Some (map fst d)\<rparr>)"
      using writelines_file_ok[OF inf _ _ _ mw body, of overwrite p w] a assms(3)
      by (simp add: strio_write_fresh)
  qed
qed

theorem C4_generator_first_row_written_witness:
  "\<not> has_headers (headers empty_text_session) \<and> ab_row \<noteq> []
   \<and> csv_line (dialect empty_text_session) (PList (map fst ab_row))
        = Inr [CHR ''a'', TAB, CHR ''b'', CR, LF]
   \<and> map (row_line (DictWriter (map fst ab_row)) (dialect empty_text_session))
          [PDict ab_row, PDict ba_row]
        = map Inr [[CHR ''1'', TAB, CHR ''2'', CR, LF], [CHR ''3'', TAB, CHR ''4'', CR, LF]]
   \<and> text_io empty_text_session = Some \<lparr>buf = [], pos = 0\<rparr>
   \<and> filename empty_text_session = None
   \<and> fst (writelines Map.empty empty_text_session (RGen [PDict ab_row, PDict ba_row]) True True)
        = Inr (Some ab_text)"
proof -
  have h1: "\<not> has_headers (headers empty_text_session)"
    by (simp add: empty_text_session_def)
  have h2: "ab_row \<noteq> []" by (simp add: ab_row_def)
  have h3: "\<not> file_is_exists empty_text_session \<or> True" by simp
  have h4: "csv_line (dialect empty_text_session) (PList (map fst ab_row))
              = Inr [CHR ''a'', TAB, CHR ''b'', CR, LF]"
    by (simp add: empty_text_session_def ab_row_def csv_line_def simple_tab_def simple_format_def)
  have h5: "map (row_line (DictWriter (map fst ab_row)) (dialect empty_text_session))
              (PDict ab_row # [PDict ba_row])
            = map Inr ([CHR ''1'', TAB, CHR ''2'', CR, LF] # [[CHR ''3'', TAB, CHR ''4'', CR, LF]])"
    by (simp add: empty_text_session_def ab_row_def ba_row_def csv_line_def simple_tab_def
        simple_format_def)
  have h6: "text_io empty_text_session = Some \<lparr>buf = [], pos = 0\<rparr>
            \<and> filename empty_text_session = None"
    by (simp add: empty_text_session_def)
  from C4_generator_first_row_written[OF h1 h2 h3 h4 h5, of "\<lparr>buf = [], pos = 0\<rparr>" Map.empty "[]"] h6
  have "fst (writelines Map.empty empty_text_session (RGen [PDict ab_row, PDict ba_row]) True True)
        = Inr (Some ab_text)"
    by (simp add: strio_write_def ab_text_def)
  with h1 h2 h4 h5 h6 show ?thesis by simp
qed

text \<open>
  Claim C5. A generator written without header inference (list-mode, or headers
  already set): the placeholder \<open>first_line = None\<close> is written as a row, which the
  writer refuses, so the call fails whatever the generator holds, and it does exactly
  what it does for the empty generator: no item is written.
\<close>

theorem C5_generator_without_inference_fails:
  assumes "\<not> (asdict \<and> \<not> has_headers (headers s))"
  shows "(\<exists>e. fst (writelines w s (RGen xs) asdict overwrite) = Inl e)
         \<and> writelines w s (RGen xs) asdict overwrite = writelines w s (RGen []) asdict overwrite"
proof -
  have inf: "\<And>ys. infer_headers s (RGen ys) asdict = (None, s, PNone, RGen ys)"
    using assms by (auto simp: infer_headers_def)
  have eq: "\<And>wr f. write_body s wr (RGen xs) PNone f = write_body s wr (RGen []) PNone f"
    using gen_body_fails by blast
  have ne: "\<And>wr f. fst (write_body s wr (RGen xs) PNone f) \<noteq> None"
    using gen_body_fails by blast
  have "(\<lambda>f. case make_writer s asdict of
               Inl e \<Rightarrow> (Some e, (), f, s)
             | Inr wr \<Rightarrow> (case write_body s wr (RGen xs) PNone f of (r, f') \<Rightarrow> (r, (), f', s)))
        = (\<lambda>f. case make_writer s asdict of
               Inl e \<Rightarrow> (Some e, (), f, s)
             | Inr wr \<Rightarrow> (case write_body s wr (RGen []) PNone f of (r, f') \<Rightarrow> (r, (), f', s)))"
    by (rule ext) (simp add: eq split: sum.splits)
  then have same:
    "writelines w s (RGen xs) asdict overwrite = writelines w s (RGen []) asdict overwrite"
    by (simp add: writelines_def inf)
  let ?body = "\<lambda>f. case make_writer s asdict of
               Inl e \<Rightarrow> (Some e, (), f, s)
             | Inr wr \<Rightarrow> (case write_body s wr (RGen xs) PNone f of (r, f') \<Rightarrow> (r, (), f', s))"
  have "\<exists>e. fst (?body f) = Some e" for f
  proof (cases "make_writer s asdict")
    case (Inl e)
    then show ?thesis by simp
  next
    case (Inr wr)
    obtain r f' where wb: "write_body s wr (RGen xs) PNone f = (r, f')" by (metis surj_pair)
    with ne[of wr f] obtain e where "r = Some e" by auto
    with Inr wb show ?thesis by simp
  qed
  from with_open_fails[of ?body True w s "()", OF this]
  obtain e where e: "fst (with_open True w s () ?body) = Some e" by blast
  obtain r v w' s' where wo: "with_open True w s () ?body = (r, v, w', s')"
    by (cases "with_open True w s () ?body") auto
  from e wo have "with_open True w s () ?body = (Some e, v, w', s')" by simp
  then have "\<exists>e. fst (writelines w s (RGen xs) asdict overwrite) = Inl e"
    by (simp add: writelines_def inf)
  with same show ?thesis by simp
qed

theorem C5_generator_without_inference_fails_witness:
  "\<not> (False \<and> \<not> has_headers (headers empty_text_session))
   \<and> fst (writelines Map.empty empty_text_session (RGen [PList [CStr ''a'', CStr ''b'']])
             False True)
       = Inl (CsvError ''iterable expected, not NoneType'')"
proof -
  have h: "\<not> (False \<and> \<not> has_headers (headers empty_text_session))" by simp
  from C5_generator_without_inference_fails[OF h, of Map.empty "[PList [CStr ''a'', CStr ''b'']]" True]
  have "writelines Map.empty empty_text_session (RGen [PList [CStr ''a'', CStr ''b'']]) False True
        = writelines Map.empty empty_text_session (RGen []) False True"
    by simp
  moreover have "fst (writelines Map.empty empty_text_session (RGen []) False True)
        = Inl (CsvError ''iterable expected, not NoneType'')"
    by code_simp
  ultimately show ?thesis by simp
qed

section \<open>Writing: the overwrite check\<close>

text \<open>
  Claim C7. A session on a file that exists, written without \<open>overwrite\<close>: the call
  fails and the file system is as before; the failure is the already-exists error
  whenever header inference, which comes first, raises nothing (it always is in
  list-mode). With \<open>overwrite\<close> a list of writable rows replaces the file's contents
  by their lines.
\<close>

theorem C7_existing_file_needs_overwrite:
  assumes "init sniff w (Some dia) (Some p) None hs hfl hpb = Inr s" and "w p = Some old"
  shows "fst (snd (writelines w s rws asdict False)) = w
       \<and> (\<exists>e. fst (writelines w s rws asdict False) = Inl e)
       \<and> (fst (infer_headers s rws asdict) = None \<longrightarrow>
            fst (writelines w s rws asdict False) = Inl FileExistsError)
       \<and> (map (csv_line dia) xs = map Inr ls \<longrightarrow>
            writelines w s (RList xs) False True = (Inr None, w(p \<mapsto> concat ls), s))"
proof -
  from assms have s: "s = \<lparr>filename = Some p, file_is_exists = True, text_io = None,
      dialect = dia, headers = hs, headers_is_first_line = hfl, headers_process_by = hpb\<rparr>"
    by (simp add: init_file_session)
  then have ex: "file_is_exists s" by simp
  have "writelines w s (RList xs) False True = (Inr None, w(p \<mapsto> concat ls), s)"
    if "map (csv_line dia) xs = map Inr ls"
  proof -
    from that s have m: "map (csv_line (dialect s)) xs = map Inr ls" by simp
    have mw: "make_writer s False = Inr ListWriter" by (simp add: make_writer_def)
    from writelines_file_ok[OF infer_list_mode _ _ _ mw list_body_ok[OF m], of True p w] s
    show ?thesis by (simp add: strio_write_fresh)
  qed
  with refused(1,2,3)[OF ex] show ?thesis by blast
qed

theorem C7_existing_file_needs_overwrite_witness:
  "init no_sniff old_world (Some simple_tab) (Some ''out.tsv'') None None True None
     = Inr file_session
   \<and> old_world ''out.tsv'' = Some ''old''
   \<and> fst (writelines old_world file_session (RList [PList [CStr ''a'', CStr ''b'']]) False False)
       = Inl FileExistsError
   \<and> fst (snd (writelines old_world file_session (RList [PList [CStr ''a'', CStr ''b'']])
                 False False)) ''out.tsv'' = Some ''old''
   \<and> fst (writelines old_world file_session (RList [PList [CStr ''a'', CStr ''b'']]) False True)
       = Inr None
   \<and> fst (snd (writelines old_world file_session (RList [PList [CStr ''a'', CStr ''b'']])
                 False True)) ''out.tsv'' = Some [CHR ''a'', TAB, CHR ''b'', CR, LF]"
proof -
  let ?rws = "RList [PList [CStr ''a'', CStr ''b'']]"
  have h1: "init no_sniff old_world (Some simple_tab) (Some ''out.tsv'') None None True None
              = Inr file_session"
    by (simp add: init_file_session file_session_def old_world_def)
  have h2: "old_world ''out.tsv'' = Some ''old''" by (simp add: old_world_def)
  have h3: "fst (infer_headers file_session ?rws False) = None"
    by (simp add: infer_list_mode)
  have h4: "map (csv_line simple_tab) [PList [CStr ''a'', CStr ''b'']]
              = map Inr [[CHR ''a'', TAB, CHR ''b'', CR, LF]]"
    by (simp add: csv_line_def simple_tab_def simple_format_def)
  from C7_existing_file_needs_overwrite[OF h1 h2, of ?rws False "[PList [CStr ''a'', CStr ''b'']]"
            "[[CHR ''a'', TAB, CHR ''b'', CR, LF]]"] h3 h4
  have "fst (writelines old_world file_session ?rws False False) = Inl FileExistsError"
    and "fst (snd (writelines old_world file_session ?rws False False)) = old_world"
    and "writelines old_world file_session ?rws False True
           = (Inr None, old_world(''out.tsv'' \<mapsto> [CHR ''a'', TAB, CHR ''b'', CR, LF]), file_session)"
    by simp_all
  with h1 h2 show ?thesis by simp
qed

text \<open>
  Claim C9. A session built on a text, whatever its other arguments, is marked as
  existing. So a write without \<open>overwrite\<close> is refused with the already-exists error
  (when header inference raises nothing), leaving file system and buffer as they
  were, and with \<open>overwrite\<close> the rows are written at the buffer's position.
\<close>

theorem C9_text_session_marked_existing:
  assumes "init sniff w dia fname (Some tx) hs hfl hpb = Inr s"
  shows "file_is_exists s
       \<and> (fst (infer_headers s rws asdict) = None \<longrightarrow>
            fst (writelines w' s rws asdict False) = Inl FileExistsError
            \<and> fst (snd (writelines w' s rws asdict False)) = w'
            \<and> text_io (snd (snd (writelines w' s rws asdict False))) = text_io s)
       \<and> (fname = None \<and> text_io s = Some t \<and> map (csv_line (dialect s)) xs = map Inr ls \<longrightarrow>
            writelines w' s (RList xs) False True
              = (Inr (Some (buf (strio_write t (concat ls)))), w',
                 s\<lparr>text_io := Some (strio_write t (concat ls))\<rparr>))"
proof -
  have ex: "file_is_exists s" and fn: "filename s = fname"
    using assms
    by (auto simp: init_def detect_dialect_def with_open_def Let_def
        split: if_splits option.splits text_arg.splits sum.splits prod.splits)
  have "writelines w' s (RList xs) False True
              = (Inr (Some (buf (strio_write t (concat ls)))), w',
                 s\<lparr>text_io := Some (strio_write t (concat ls))\<rparr>)"
    if "fname = None" and "text_io s = Some t" and m: "map (csv_line (dialect s)) xs = map Inr ls"
  proof -
    have mw: "make_writer s False = Inr ListWriter" by (simp add: make_writer_def)
    from writelines_text_ok[OF infer_list_mode _ _ _ mw list_body_ok[OF m], of True t w'] that fn
    show ?thesis by simp
  qed
  with refused(1,3,4)[OF ex] ex show ?thesis by blast
qed

theorem C9_text_session_marked_existing_witness:
  "init no_sniff Map.empty (Some simple_tab) None (Some (TStr [])) None True None
     = Inr empty_text_session
   \<and> file_is_exists empty_text_session
   \<and> fst (writelines Map.empty empty_text_session (RList [PList [CStr ''a'', CStr ''b'']])
             False False) = Inl FileExistsError
   \<and> fst (writelines Map.empty empty_text_session (RList [PList [CStr ''a'', CStr ''b'']])
             False True) = Inr (Some [CHR ''a'', TAB, CHR ''b'', CR, LF])"
proof -
  let ?rws = "RList [PList [CStr ''a'', CStr ''b'']]"
  have h1: "init no_sniff Map.empty (Some simple_tab) None (Some (TStr [])) None True None
              = Inr empty_text_session"
    using text_session_empty by (simp add: text_session_def)
  have h3: "fst (infer_headers empty_text_session ?rws False) = None"
    by (simp add: infer_list_mode)
  have h4: "text_io empty_text_session = Some \<lparr>buf = [], pos = 0\<rparr>"
    by (simp add: empty_text_session_def)
  have h5: "map (csv_line (dialect empty_text_session)) [PList [CStr ''a'', CStr ''b'']]
              = map Inr [[CHR ''a'', TAB, CHR ''b'', CR, LF]]"
    by (simp add: empty_text_session_def csv_line_def simple_tab_def simple_format_def)
  from C9_text_session_marked_existing[OF h1, of ?rws False Map.empty "\<lparr>buf = [], pos = 0\<rparr>"
            "[PList [CStr ''a'', CStr ''b'']]" "[[CHR ''a'', TAB, CHR ''b'', CR, LF]]"] h3 h4 h5
  have "file_is_exists empty_text_session"
    and "fst (writelines Map.empty empty_text_session ?rws False False) = Inl FileExistsError"
    and "fst (writelines Map.empty empty_text_session ?rws False True)
           = Inr (Some [CHR ''a'', TAB, CHR ''b'', CR, LF])"
    by (simp_all add: strio_write_def)
  with h1 show ?thesis by simp
qed

section \<open>Writing: headers from the first mapping\<close>

text \<open>
  Claim C8. Mapping-mode, no headers set, rows in a list whose first row is a
  non-empty mapping \<open>d\<close>: the headers become the keys of \<open>d\<close> in their order and the
  destination receives the header row, the row of \<open>d\<close> and the remaining rows (rows
  writable, destination open to writing). When the first row is no mapping, the call
  fails with \<open>ValueError\<close> and nothing changes.
\<close>

theorem C8_headers_inferred_from_first_mapping:
  assumes "\<not> has_headers (headers s)"
  shows "(d \<noteq> [] \<and> (\<not> file_is_exists s \<or> overwrite)
          \<and> csv_line (dialect s) (PList (map fst d)) = Inr hline
          \<and> map (row_line (DictWriter (map fst d)) (dialect s)) (PDict d # rest)
                = map Inr (l1 # ls) \<longrightarrow>
            (text_io s = Some t \<and> filename s = None \<longrightarrow>
               writelines w s (RList (PDict d # rest)) True overwrite
                 = (Inr (Some (buf (strio_write t (hline @ l1 @ concat ls)))), w,
                    s\<lparr>headers := Some (map fst d),
                      text_io := Some (strio_write t (hline @ l1 @ concat ls))\<rparr>))
            \<and> (text_io s = None \<and> filename s = Some p \<longrightarrow>
               writelines w s (RList (PDict d # rest)) True overwrite
                 = (Inr None, w(p \<mapsto> hline @ l1 @ concat ls),
                    s\<lparr>headers := Some (map fst d)\<rparr>)))
       \<and> (first_row rws = Inr (x, rws') \<and> \<not> is_dict x \<longrightarrow>
            writelines w s rws True overwrite = (Inl ValueError, w, s))"
proof (intro conjI impI)
  assume "first_row rws = Inr (x, rws') \<and> \<not> is_dict x"
  with assms have "infer_headers s rws True = (Some ValueError, s, PNone, rws)"
    by (simp add: infer_not_dict)
  then show "writelines w s rws True overwrite = (Inl ValueError, w, s)"
    by (simp add: writelines_def)
next
  let ?s1 = "s\<lparr>headers := Some (map fst d)\<rparr>"
  let ?rws = "RList (PDict d # rest)"
  assume a: "d \<noteq> [] \<and> (\<not> file_is_exists s \<or> overwrite)
          \<and> csv_line (dialect s) (PList (map fst d)) = Inr hline
          \<and> map (row_line (DictWriter (map fst d)) (dialect s)) (PDict d # rest)
                = map Inr (l1 # ls)"
  then have inf: "infer_headers s ?rws True = (None, ?s1, PDict d, ?rws)"
    using assms by (simp add: infer_from_dict)
  have names: "map fst d \<noteq> []" using a by simp
  have mw: "make_writer ?s1 True = Inr (DictWriter (map fst d))"
    using names by (simp add: make_writer_def)
  have body: "\<And>f. write_body ?s1 (DictWriter (map fst d)) ?rws (PDict d) f
                 = (None, strio_write f (hline @ l1 @ concat ls))"
    using dict_body_ok(2)[of ?s1 "map fst d" hline d rest l1 ls] names a by simp
  {
    assume b: "text_io s = Some t \<and> filename s = None"
    show "writelines w s ?rws True overwrite
              = (Inr (Some (buf (strio_write t (hline @ l1 @ concat ls)))), w,
                 s\<lparr>headers := Some (map fst d),
                   text_io := Some (strio_write t (hline @ l1 @ concat ls))\<rparr>)"
      using writelines_text_ok[OF inf _ _ _ mw body, of overwrite t w] a b by simp
  }
  {
    assume b: "text_io s = None \<and> filename s = Some p"
    show "writelines w s ?rws True overwrite
              = (Inr None, w(p \<mapsto> hline @ l1 @ concat ls), s\<lparr>headers := Some (map fst d)\<rparr>)"
      using writelines_file_ok[OF inf _ _ _ mw body, of overwrite p w] a b
      by (simp add: strio_write_fresh)
  }
qed

theorem C8_headers_inferred_from_first_mapping_witness:
  "\<not> has_headers (headers empty_text_session)
   \<and> writelines Map.empty empty_text_session (RList [PDict ab_row, PDict ba_row]) True True
       = (Inr (Some ab_text), Map.empty,
          empty_text_session\<lparr>headers := Some [CStr ''a'', CStr ''b''],
                             text_io := Some \<lparr>buf = ab_text, pos = 15\<rparr>\<rparr>)
   \<and> writelines Map.empty empty_text_session (RList [PList [CStr ''a'', CStr ''b'']]) True True
       = (Inl ValueError, Map.empty, empty_text_session)"
proof -
  have h1: "\<not> has_headers (headers empty_text_session)"
    by (simp add: empty_text_session_def)
  have h2: "ab_row \<noteq> []" by (simp add: ab_row_def)
  have h4: "csv_line (dialect empty_text_session) (PList (map fst ab_row))
              = Inr [CHR ''a'', TAB, CHR ''b'', CR, LF]"
    by (simp add: empty_text_session_def ab_row_def csv_line_def simple_tab_def simple_format_def)
  have h5: "map (row_line (DictWriter (map fst ab_row)) (dialect empty_text_session))
              (PDict ab_row # [PDict ba_row])
            = map Inr ([CHR ''1'', TAB, CHR ''2'', CR, LF] # [[CHR ''3'', TAB, CHR ''4'', CR, LF]])"
    by (simp add: empty_text_session_def ab_row_def ba_row_def csv_line_def simple_tab_def
        simple_format_def)
  have h6: "text_io empty_text_session = Some \<lparr>buf = [], pos = 0\<rparr>
            \<and> filename empty_text_session = None"
    by (simp add: empty_text_session_def)
  have h7: "first_row (RList [PList [CStr ''a'', CStr ''b'']])
              = Inr (PList [CStr ''a'', CStr ''b''], RList [PList [CStr ''a'', CStr ''b'']])
            \<and> \<not> is_dict (PList [CStr ''a'', CStr ''b''])"
    by simp
  have k: "map fst ab_row = [CStr ''a'', CStr ''b'']" by (simp add: ab_row_def)
  from C8_headers_inferred_from_first_mapping[OF h1, of ab_row True "[CHR ''a'', TAB, CHR ''b'', CR, LF]" "[PDict ba_row]"
            "[CHR ''1'', TAB, CHR ''2'', CR, LF]" "[[CHR ''3'', TAB, CHR ''4'', CR, LF]]"
            "\<lparr>buf = [], pos = 0\<rparr>" Map.empty "[]"
            "RList [PList [CStr ''a'', CStr ''b'']]" "PList [CStr ''a'', CStr ''b'']"
            "RList [PList [CStr ''a'', CStr ''b'']]"]
       h2 h4 h5 h6 h7
  have "writelines Map.empty empty_text_session (RList [PDict ab_row, PDict ba_row]) True True
       = (Inr (Some ab_text), Map.empty,
          empty_text_session\<lparr>headers := Some [CStr ''a'', CStr ''b''],
                             text_io := Some \<lparr>buf = ab_text, pos = 15\<rparr>\<rparr>)"
    and "writelines Map.empty empty_text_session (RList [PList [CStr ''a'', CStr ''b'']]) True True
       = (Inl ValueError, Map.empty, empty_text_session)"
    by (simp_all add: strio_write_def ab_text_def k)
  with h1 show ?thesis by simp
qed

section \<open>Round trip\<close>

text \<open>
  Claim C2. Writing back what was read should give the text again. For the two-line
  text, which is the dialect's own rendering of its records, the rows of \<open>readlines\<close>
  handed on as the generator they are make \<open>writelines\<close> fail on the placeholder row;
  handed on as a list they give the second line only, the first record having been
  taken as the header set.
\<close>

theorem C2_round_trip_loses_first_record:
  "(case text_session two_lines True of
      Inl e \<Rightarrow> False
    | Inr s \<Rightarrow>
        (case readlines Map.empty s False None of
           (fin, ys, w, s') \<Rightarrow>
             (case text_session [] True of
                Inl e \<Rightarrow> False
              | Inr s0 \<Rightarrow>
                  fin = None
                  \<and> fst (writelines Map.empty s0 (RGen ys) False True)
                      = Inl (CsvError ''iterable expected, not NoneType'')
                  \<and> fst (writelines Map.empty s0 (RList ys) False True)
                      = Inr (Some [CHR ''c'', TAB, CHR ''d'', CR, LF])
                  \<and> [CHR ''c'', TAB, CHR ''d'', CR, LF] \<noteq> two_lines)))"
  by code_simp

end
